theory Spec2Isabelle
  imports Main "HOL-Library.Word"
begin

section \<open>Common Go notions\<close>

type_synonym byte = "8 word"

text \<open>
  A Go call that returns \<open>(T, error)\<close> either returns a value, returns an error (carrying its
  message), or panics at run time (an index out of range, a library precondition).
\<close>

datatype 'a outcome = Ok 'a | Err string | Panic string

text \<open>The rendering of \<open>%d\<close> by \<open>fmt\<close>: decimal digits, with a minus sign when negative.\<close>

definition digit_char :: "nat \<Rightarrow> char" where
  "digit_char d = char_of (48 + d)"

function show_nat :: "nat \<Rightarrow> string" where
  "show_nat n = (if n < 10 then [digit_char n] else show_nat (n div 10) @ [digit_char (n mod 10)])"
  by pat_completeness auto
termination
  by (relation "measure id") auto

definition show_int :: "int \<Rightarrow> string" where
  "show_int i = (if i < 0 then CHR ''-'' # show_nat (nat (- i)) else show_nat (nat i))"

section \<open>internal/merkle/tree.go\<close>

text \<open>
  SHA3-256 comes from \<open>golang.org/x/crypto/sha3\<close>; it is a parameter \<open>H\<close> of the model:
  \<open>H bs\<close> is what \<open>h.Sum(nil)\<close> returns after \<open>bs\<close> has been written to a fresh \<open>sha3.New256()\<close>.
\<close>

type_synonym hashfn = "byte list \<Rightarrow> byte list"

definition LeafPrefix :: "byte list" where
  "LeafPrefix = [0x00]"

definition NodePrefix :: "byte list" where
  "NodePrefix = [0x01]"

definition hashLeaf :: "hashfn \<Rightarrow> byte list \<Rightarrow> byte list" where
  "hashLeaf H data = H (LeafPrefix @ data)"

definition hashNode :: "hashfn \<Rightarrow> byte list \<Rightarrow> byte list \<Rightarrow> byte list" where
  "hashNode H left right = H (NodePrefix @ left @ right)"

definition HashData :: "hashfn \<Rightarrow> byte list \<Rightarrow> byte list" where
  "HashData H data = H data"

text \<open>\<open>equal\<close> compares the lengths and then every byte.\<close>

fun equal_bytes :: "byte list \<Rightarrow> byte list \<Rightarrow> bool" where
  "equal_bytes [] [] = True"
| "equal_bytes (a # as) (b # bs) = (if a \<noteq> b then False else equal_bytes as bs)"
| "equal_bytes _ _ = False"

record Tree =
  Leaves :: "byte list list"
  Nodes :: "byte list list"
  root :: "byte list"
  height :: int

record ProofElement =
  Hash :: "byte list"
  IsRight :: bool

text \<open>
  The inner \<open>for i := 0; i < len(currentLevel); i += 2\<close> loop, shared by \<open>NewTree\<close> and
  \<open>Proof\<close>: pairs are hashed, an unpaired last node is promoted unchanged.
\<close>

fun next_level :: "hashfn \<Rightarrow> byte list list \<Rightarrow> byte list list" where
  "next_level H (l # r # rest) = hashNode H l r # next_level H rest"
| "next_level H [l] = [l]"
| "next_level H [] = []"

lemma length_next_level: "length (next_level H xs) = (length xs + 1) div 2"
  by (induction H xs rule: next_level.induct) auto

text \<open>The outer \<open>for len(currentLevel) > 1\<close> loop of \<open>NewTree\<close>, on (currentLevel, allNodes, height).\<close>

function build_levels ::
  "hashfn \<Rightarrow> byte list list \<Rightarrow> byte list list \<Rightarrow> int \<Rightarrow> byte list list \<times> byte list list \<times> int" where
  "build_levels H currentLevel allNodes h =
     (if length currentLevel > 1
      then (let nextLevel = next_level H currentLevel
            in build_levels H nextLevel (allNodes @ nextLevel) (h + 1))
      else (currentLevel, allNodes, h))"
  by pat_completeness auto
termination
  by (relation "measure (\<lambda>(H, cl, an, h). length cl)") (auto simp: length_next_level)

declare build_levels.simps [simp del]

definition NewTree :: "hashfn \<Rightarrow> byte list list \<Rightarrow> Tree outcome" where
  "NewTree H leaves =
     (if length leaves = 0 then Err ''cannot build Merkle tree with zero leaves''
      else (let currentLevel = map (hashLeaf H) leaves
            in case build_levels H currentLevel ([] @ currentLevel) 0 of
                 (finalLevel, allNodes, h) \<Rightarrow>
                   (case finalLevel of
                      [] \<Rightarrow> Panic ''index out of range [0] with length 0''
                    | r # _ \<Rightarrow> Ok \<lparr>Leaves = leaves, Nodes = allNodes, root = r, height = h\<rparr>)))"

definition Root :: "Tree \<Rightarrow> byte list" where
  "Root t = root t"

definition Height :: "Tree \<Rightarrow> int" where
  "Height t = height t"

definition LeafCount :: "Tree \<Rightarrow> int" where
  "LeafCount t = int (length (Leaves t))"

text \<open>
  The loop of \<open>Proof\<close> on (currentLevel, idx, proof). \<open>sibling\<close> stays \<open>nil\<close> when the
  node is the unpaired last one, and then no element is appended (a hash is never \<open>nil\<close>:
  \<open>Sum\<close> returns 32 bytes). The read \<open>currentLevel[idx-1]\<close> is not guarded in the source, so
  the model writes out the run-time panic it would raise out of range.
\<close>

function proof_loop ::
  "hashfn \<Rightarrow> byte list list \<Rightarrow> nat \<Rightarrow> ProofElement list \<Rightarrow> ProofElement list outcome" where
  "proof_loop H currentLevel idx prf =
     (if length currentLevel > 1
      then (if idx mod 2 = 0
            then (let prf' = (if idx + 1 < length currentLevel
                              then prf @ [\<lparr>Hash = currentLevel ! (idx + 1), IsRight = True\<rparr>]
                              else prf)
                  in proof_loop H (next_level H currentLevel) (idx div 2) prf')
            else (if idx - 1 < length currentLevel
                  then proof_loop H (next_level H currentLevel) (idx div 2)
                         (prf @ [\<lparr>Hash = currentLevel ! (idx - 1), IsRight = False\<rparr>])
                  else Panic ''index out of range''))
      else Ok prf)"
  by pat_completeness auto
termination
  by (relation "measure (\<lambda>(H, cl, idx, prf). length cl)") (auto simp: length_next_level)

declare proof_loop.simps [simp del]

definition Proof :: "hashfn \<Rightarrow> Tree \<Rightarrow> int \<Rightarrow> ProofElement list outcome" where
  "Proof H t index =
     (if index < 0 \<or> index \<ge> int (length (Leaves t))
      then Err (''leaf index '' @ show_int index @ '' out of range [0, ''
                @ show_int (int (length (Leaves t))) @ '')'')
      else proof_loop H (map (hashLeaf H) (Leaves t)) (nat index) [])"

text \<open>The \<open>for _, p := range proof\<close> loop of \<open>VerifyProof\<close>.\<close>

fun verify_walk :: "hashfn \<Rightarrow> byte list \<Rightarrow> ProofElement list \<Rightarrow> byte list" where
  "verify_walk H current [] = current"
| "verify_walk H current (p # ps) =
     verify_walk H (if IsRight p then hashNode H current (Hash p)
                    else hashNode H (Hash p) current) ps"

definition VerifyProof :: "hashfn \<Rightarrow> byte list \<Rightarrow> ProofElement list \<Rightarrow> byte list \<Rightarrow> bool" where
  "VerifyProof H leafData prf rt = equal_bytes (verify_walk H (hashLeaf H leafData) prf) rt"

section \<open>internal/did/didkey.go\<close>

text \<open>
  Base58 (btc alphabet) comes from \<open>github.com/mr-tron/base58\<close>; \<open>EncodeDIDKey\<close> and
  \<open>DecodeDIDKey\<close> take \<open>base58.Encode\<close> and \<open>base58.Decode\<close> as parameters.
\<close>

definition ed25519MulticodecPrefix :: "byte list" where
  "ed25519MulticodecPrefix = [0xed, 0x01]"

definition PublicKeySize :: nat where
  "PublicKeySize = 32"

definition PrivateKeySize :: nat where
  "PrivateKeySize = 64"

text \<open>\<open>strings.HasPrefix\<close>.\<close>

definition HasPrefix :: "string \<Rightarrow> string \<Rightarrow> bool" where
  "HasPrefix s p = (length s \<ge> length p \<and> take (length p) s = p)"

definition EncodeDIDKey :: "(byte list \<Rightarrow> string) \<Rightarrow> byte list \<Rightarrow> string" where
  "EncodeDIDKey b58enc pub =
     (let prefixed = ed25519MulticodecPrefix @ pub;
          encoded = b58enc prefixed
      in ''did:key:z'' @ encoded)"

text \<open>
  The loop \<open>for i, b := range ed25519MulticodecPrefix\<close> comparing \<open>decoded[i]\<close> with \<open>b\<close>;
  the length check before it keeps \<open>decoded[i]\<close> in range.
\<close>

fun prefix_differs :: "byte list \<Rightarrow> byte list \<Rightarrow> bool" where
  "prefix_differs decoded [] = False"
| "prefix_differs (d # ds) (b # bs) = (if d \<noteq> b then True else prefix_differs ds bs)"
| "prefix_differs [] (b # bs) = True"

definition DecodeDIDKey :: "(string \<Rightarrow> byte list outcome) \<Rightarrow> string \<Rightarrow> byte list outcome" where
  "DecodeDIDKey b58dec did =
     (if \<not> HasPrefix did ''did:key:z''
      then Err (''invalid DID:key format: must start with '' @ [CHR 0x27] @ ''did:key:z'' @ [CHR 0x27])
      else (let encoded = drop (length ''did:key:z'') did
            in case b58dec encoded of
                 Panic p \<Rightarrow> Panic p
               | Err e \<Rightarrow> Err (''failed to decode base58: '' @ e)
               | Ok decoded \<Rightarrow>
                   if length decoded < length ed25519MulticodecPrefix
                   then Err ''decoded key too short''
                   else if prefix_differs decoded ed25519MulticodecPrefix
                   then Err ''invalid multicodec prefix: expected Ed25519 (0xed01)''
                   else (let pubBytes = drop (length ed25519MulticodecPrefix) decoded
                         in if length pubBytes \<noteq> PublicKeySize
                            then Err (''invalid public key length: got '' @ show_int (int (length pubBytes))
                                      @ '', expected '' @ show_int (int PublicKeySize))
                            else Ok pubBytes)))"

section \<open>Library codecs\<close>

text \<open>
  Executable models of the library codecs: base58 with the btc alphabet, unpadded URL-safe
  base64, lower-case hex and big-endian 32-bit integers. The first two instantiate the codec
  parameters at concrete inputs; the last two are what \<open>encoding/hex\<close> and
  \<open>encoding/binary\<close> compute.
\<close>

definition b58_alphabet :: string where
  "b58_alphabet = ''123456789ABCDEFGHJKLMNPQRSTUVWXYZabcdefghijkmnopqrstuvwxyz''"

definition b64url_alphabet :: string where
  "b64url_alphabet = ''ABCDEFGHIJKLMNOPQRSTUVWXYZabcdefghijklmnopqrstuvwxyz0123456789-_''"

fun index_of :: "'a \<Rightarrow> 'a list \<Rightarrow> nat option" where
  "index_of c [] = None"
| "index_of c (x # xs) = (if c = x then Some 0 else map_option Suc (index_of c xs))"

fun nat_of_digits :: "nat \<Rightarrow> nat \<Rightarrow> nat list \<Rightarrow> nat" where
  "nat_of_digits base acc [] = acc"
| "nat_of_digits base acc (d # ds) = nat_of_digits base (acc * base + d) ds"

function digits_of_nat :: "nat \<Rightarrow> nat \<Rightarrow> nat list \<Rightarrow> nat list" where
  "digits_of_nat base n acc =
     (if n = 0 \<or> base < 2 then acc else digits_of_nat base (n div base) (n mod base # acc))"
  by pat_completeness auto
termination
  by (relation "measure (\<lambda>(base, n, acc). n)") auto

declare digits_of_nat.simps [simp del]

definition base58_Encode :: "byte list \<Rightarrow> string" where
  "base58_Encode bin =
     replicate (length (takeWhile (\<lambda>b. b = 0) bin)) (CHR ''1'')
     @ map (\<lambda>d. b58_alphabet ! d) (digits_of_nat 58 (nat_of_digits 256 0 (map unat bin)) [])"

fun b58_digits :: "string \<Rightarrow> string + nat list" where
  "b58_digits [] = Inr []"
| "b58_digits (c # cs) =
     (case index_of c b58_alphabet of
        None \<Rightarrow> Inl (''invalid base58 digit ('' @ [CHR 0x27, c, CHR 0x27] @ '')'')
      | Some d \<Rightarrow> (case b58_digits cs of Inl e \<Rightarrow> Inl e | Inr ds \<Rightarrow> Inr (d # ds)))"

definition base58_Decode :: "string \<Rightarrow> byte list outcome" where
  "base58_Decode str =
     (if length str = 0 then Err ''zero length string''
      else case b58_digits str of
             Inl e \<Rightarrow> Err e
           | Inr ds \<Rightarrow>
               Ok (replicate (length (takeWhile (\<lambda>c. c = CHR ''1'') str)) 0
                   @ map word_of_nat (digits_of_nat 256 (nat_of_digits 58 0 ds) [])))"

fun b64_sextets_of :: "nat list \<Rightarrow> nat list" where
  "b64_sextets_of (a # b # c # rest) =
     (let n = (a * 256 + b) * 256 + c
      in [n div 262144, n div 4096 mod 64, n div 64 mod 64, n mod 64] @ b64_sextets_of rest)"
| "b64_sextets_of [a, b] =
     (let n = (a * 256 + b) * 4 in [n div 4096, n div 64 mod 64, n mod 64])"
| "b64_sextets_of [a] = (let n = a * 16 in [n div 64, n mod 64])"
| "b64_sextets_of [] = []"

definition RawURLEncoding_EncodeToString :: "byte list \<Rightarrow> string" where
  "RawURLEncoding_EncodeToString src =
     map (\<lambda>d. b64url_alphabet ! d) (b64_sextets_of (map unat src))"

fun b64_sextets :: "nat \<Rightarrow> string \<Rightarrow> string + nat list" where
  "b64_sextets i [] = Inr []"
| "b64_sextets i (c # cs) =
     (case index_of c b64url_alphabet of
        None \<Rightarrow> Inl (''illegal base64 data at input byte '' @ show_nat i)
      | Some d \<Rightarrow> (case b64_sextets (i + 1) cs of Inl e \<Rightarrow> Inl e | Inr ds \<Rightarrow> Inr (d # ds)))"

fun b64_quanta :: "nat \<Rightarrow> nat list \<Rightarrow> string + nat list" where
  "b64_quanta i (a # b # c # d # rest) =
     (let n = ((a * 64 + b) * 64 + c) * 64 + d
      in case b64_quanta (i + 4) rest of
           Inl e \<Rightarrow> Inl e
         | Inr bs \<Rightarrow> Inr ([n div 65536, n div 256 mod 256, n mod 256] @ bs))"
| "b64_quanta i [a, b, c] = (let n = (a * 64 + b) * 64 + c in Inr [n div 1024, n div 4 mod 256])"
| "b64_quanta i [a, b] = (let n = a * 64 + b in Inr [n div 16])"
| "b64_quanta i [a] = Inl (''illegal base64 data at input byte '' @ show_nat (i + 1))"
| "b64_quanta i [] = Inr []"

definition RawURLEncoding_DecodeString :: "string \<Rightarrow> byte list outcome" where
  "RawURLEncoding_DecodeString s =
     (case b64_sextets 0 s of
        Inl e \<Rightarrow> Err e
      | Inr ds \<Rightarrow> (case b64_quanta 0 ds of Inl e \<Rightarrow> Err e | Inr bs \<Rightarrow> Ok (map word_of_nat bs)))"

definition hex_EncodeToString :: "byte list \<Rightarrow> string" where
  "hex_EncodeToString src =
     concat (map (\<lambda>b. [''0123456789abcdef'' ! (unat b div 16), ''0123456789abcdef'' ! (unat b mod 16)]) src)"

definition BigEndian_PutUint32 :: "32 word \<Rightarrow> byte list" where
  "BigEndian_PutUint32 v =
     [word_of_nat (unat v div 16777216), word_of_nat (unat v div 65536),
      word_of_nat (unat v div 256), word_of_nat (unat v)]"

text \<open>\<open>binary.BigEndian.Uint32\<close> panics on a slice shorter than 4 bytes.\<close>

fun BigEndian_Uint32 :: "byte list \<Rightarrow> 32 word outcome" where
  "BigEndian_Uint32 (b0 # b1 # b2 # b3 # _) =
     Ok (word_of_nat (((unat b0 * 256 + unat b1) * 256 + unat b2) * 256 + unat b3))"
| "BigEndian_Uint32 _ = Panic ''index out of range [3]''"

text \<open>\<open>[]byte(s)\<close>: the bytes of a string.\<close>

definition bytes_of_string :: "string \<Rightarrow> byte list" where
  "bytes_of_string s = map (\<lambda>c. word_of_nat (of_char c)) s"

text \<open>
  \<open>copy(dst[lo:hi], src)\<close> on a buffer: \<open>min (hi - lo) (len src)\<close> bytes are overwritten.
\<close>

definition copy_into :: "byte list \<Rightarrow> nat \<Rightarrow> nat \<Rightarrow> byte list \<Rightarrow> byte list" where
  "copy_into dst lo hi src =
     (let n = min (hi - lo) (length src) in take lo dst @ take n src @ drop (lo + n) dst)"

section \<open>Time\<close>

text \<open>
  A \<open>time.Time\<close> is its wall-clock reading in nanoseconds since the Unix epoch; a
  \<open>time.Duration\<close> is a signed 64-bit count of nanoseconds, so negation and addition wrap.
  \<open>Sub\<close> saturates at the least and the greatest duration.
\<close>

type_synonym Time = int

type_synonym Duration = "64 word"

definition Second :: Duration where
  "Second = 1000000000"

definition Minute :: Duration where
  "Minute = 60 * Second"

definition Hour :: Duration where
  "Hour = 60 * Minute"

definition time_Unix :: "int \<Rightarrow> int \<Rightarrow> Time" where
  "time_Unix sec nsec = sec * 1000000000 + nsec"

definition Time_Unix :: "Time \<Rightarrow> int" where
  "Time_Unix t = t div 1000000000"

definition Time_Sub :: "Time \<Rightarrow> Time \<Rightarrow> Duration" where
  "Time_Sub t u =
     (let d = t - u
      in if d < - (2 ^ 63) then word_of_int (- (2 ^ 63))
         else if d > 2 ^ 63 - 1 then word_of_int (2 ^ 63 - 1)
         else word_of_int d)"

section \<open>internal/store\<close>

text \<open>
  The SQLite database behind \<open>Store\<close>, as its tables: rows in insertion order, the
  \<open>AUTOINCREMENT\<close> counters, and \<open>CURRENT_TIMESTAMP\<close> passed in as the text \<open>now\<close>.
\<close>

record User =
  ID :: int
  Username :: string
  DID :: string
  PublicKey :: "byte list"
  Role :: string
  CreatedAt :: string
  RevokedAt :: "string option"

record Revocation =
  rev_id :: int
  rev_did :: string
  rev_reason :: string
  rev_revoked_at :: string

record NonceEntry =
  nonce :: string
  seen_at :: string

record Store =
  users :: "User list"
  revocations :: "Revocation list"
  nonce_cache :: "NonceEntry list"
  node_info :: "(string \<times> string) list"
  users_seq :: int
  revocations_seq :: int

text \<open>
  Every statement sent to the database can fail with a driver error (a cancelled context, a
  locked or unreadable file). \<open>flt\<close> says, for one call of a store method, which of its
  statements fail and with which message; \<open>no_faults\<close> is the database that answers.
\<close>

datatype db_op =
  ExecAddUser | QueryUserByUsername | QueryCheckNonce | QueryIsRevoked | ExecRecordNonce
  | TxBegin | TxSelectDID | TxUpdateUser | TxInsertRevocation | TxCommit

type_synonym faults = "db_op \<Rightarrow> string option"

definition no_faults :: faults where
  "no_faults = (\<lambda>_. None)"

definition AddUser ::
  "faults \<Rightarrow> string \<Rightarrow> Store \<Rightarrow> string \<Rightarrow> string \<Rightarrow> byte list \<Rightarrow> string \<Rightarrow> string option \<times> Store" where
  "AddUser flt now s username did publicKey role0 =
     (let role = (if role0 = [] then ''basic'' else role0)
      in case flt ExecAddUser of
           Some e \<Rightarrow> (Some (''failed to add user: '' @ e), s)
         | None \<Rightarrow>
             if \<exists>u \<in> set (users s). Username u = username
             then (Some (''failed to add user: UNIQUE constraint failed: users.username''), s)
             else if \<exists>u \<in> set (users s). DID u = did
             then (Some (''failed to add user: UNIQUE constraint failed: users.did''), s)
             else (None,
                   s\<lparr>users := users s @ [\<lparr>ID = users_seq s + 1, Username = username, DID = did,
                                           PublicKey = publicKey, Role = role, CreatedAt = now,
                                           RevokedAt = None\<rparr>],
                     users_seq := users_seq s + 1\<rparr>))"

definition GetUserByUsername :: "faults \<Rightarrow> Store \<Rightarrow> string \<Rightarrow> User option outcome" where
  "GetUserByUsername flt s username =
     (case flt QueryUserByUsername of
        Some e \<Rightarrow> Err (''failed to get user by username: '' @ e)
      | None \<Rightarrow> Ok (find (\<lambda>u. Username u = username) (users s)))"

definition RevokeUser ::
  "faults \<Rightarrow> string \<Rightarrow> Store \<Rightarrow> string \<Rightarrow> string \<Rightarrow> string option \<times> Store" where
  "RevokeUser flt now s username reason =
     (case flt TxBegin of
        Some e \<Rightarrow> (Some (''failed to begin transaction: '' @ e), s)
      | None \<Rightarrow>
          (case flt TxSelectDID of
             Some e \<Rightarrow> (Some (''failed to find user: '' @ e), s)
           | None \<Rightarrow>
               (case find (\<lambda>u. Username u = username) (users s) of
                  None \<Rightarrow> (Some (''user not found: '' @ username), s)
                | Some row \<Rightarrow>
                    (let did = DID row
                     in case flt TxUpdateUser of
                          Some e \<Rightarrow> (Some (''failed to update user revocation: '' @ e), s)
                        | None \<Rightarrow>
                            (let s1 = s\<lparr>users := map (\<lambda>u. if Username u = username
                                                          then u\<lparr>RevokedAt := Some now\<rparr> else u)
                                                    (users s)\<rparr>
                             in case flt TxInsertRevocation of
                                  Some e \<Rightarrow> (Some (''failed to insert revocation record: '' @ e), s)
                                | None \<Rightarrow>
                                    (let s2 = s1\<lparr>revocations := revocations s1 @
                                                    [\<lparr>rev_id = revocations_seq s1 + 1, rev_did = did,
                                                      rev_reason = reason, rev_revoked_at = now\<rparr>],
                                                  revocations_seq := revocations_seq s1 + 1\<rparr>
                                     in case flt TxCommit of
                                          Some e \<Rightarrow> (Some e, s)
                                        | None \<Rightarrow> (None, s2)))))))"

definition IsRevoked :: "faults \<Rightarrow> Store \<Rightarrow> string \<Rightarrow> bool outcome" where
  "IsRevoked flt s did =
     (case flt QueryIsRevoked of
        Some e \<Rightarrow> Err (''failed to check revocation: '' @ e)
      | None \<Rightarrow> Ok (length (filter (\<lambda>r. rev_did r = did) (revocations s)) > 0))"

definition CheckNonce :: "faults \<Rightarrow> Store \<Rightarrow> string \<Rightarrow> bool outcome" where
  "CheckNonce flt s n =
     (case flt QueryCheckNonce of
        Some e \<Rightarrow> Err (''failed to check nonce: '' @ e)
      | None \<Rightarrow> Ok (length (filter (\<lambda>r. nonce r = n) (nonce_cache s)) > 0))"

definition RecordNonce :: "faults \<Rightarrow> string \<Rightarrow> Store \<Rightarrow> string \<Rightarrow> string option \<times> Store" where
  "RecordNonce flt now s n =
     (case flt ExecRecordNonce of
        Some e \<Rightarrow> (Some (''failed to record nonce: '' @ e), s)
      | None \<Rightarrow>
          (None, if \<exists>r \<in> set (nonce_cache s). nonce r = n then s
                 else s\<lparr>nonce_cache := nonce_cache s @ [\<lparr>nonce = n, seen_at = now\<rparr>]\<rparr>))"

section \<open>internal/verifier\<close>

text \<open>
  What the verifier takes from libraries: SHA3-256 (\<open>sha3.Sum256\<close>), Ed25519 on keys of the
  right size, unpadded URL-safe base64, base58, and the two \<open>fmt.Sprintf\<close> calls that render
  seconds as floating point (\<open>%.0f\<close>) in the details of the temporal denials.
\<close>

record libs =
  sha3_Sum256 :: "byte list \<Rightarrow> byte list"
  ed25519_check :: "byte list \<Rightarrow> byte list \<Rightarrow> byte list \<Rightarrow> bool"
  ed25519_sig :: "byte list \<Rightarrow> byte list \<Rightarrow> byte list"
  b64_DecodeString :: "string \<Rightarrow> byte list outcome"
  b64_EncodeToString :: "byte list \<Rightarrow> string"
  b58_Decode :: "string \<Rightarrow> byte list outcome"
  sprintf_future :: "Duration \<Rightarrow> Duration \<Rightarrow> string"
  sprintf_expired :: "Duration \<Rightarrow> Duration \<Rightarrow> Duration \<Rightarrow> string"

text \<open>\<open>ed25519.Verify\<close> and \<open>ed25519.Sign\<close> panic on a key of the wrong length.\<close>

definition ed25519_Verify :: "libs \<Rightarrow> byte list \<Rightarrow> byte list \<Rightarrow> byte list \<Rightarrow> bool outcome" where
  "ed25519_Verify L publicKey message sig =
     (if length publicKey \<noteq> PublicKeySize
      then Panic (''ed25519: bad public key length: '' @ show_int (int (length publicKey)))
      else Ok (ed25519_check L publicKey message sig))"

definition ed25519_Sign :: "libs \<Rightarrow> byte list \<Rightarrow> byte list \<Rightarrow> byte list outcome" where
  "ed25519_Sign L privateKey message =
     (if length privateKey \<noteq> PrivateKeySize
      then Panic (''ed25519: bad private key length: '' @ show_int (int (length privateKey)))
      else Ok (ed25519_sig L privateKey message))"

text \<open>\<open>subtle.ConstantTimeCompare\<close>: 1 when the slices have equal length and contents, else 0.\<close>

definition ConstantTimeCompare :: "byte list \<Rightarrow> byte list \<Rightarrow> int" where
  "ConstantTimeCompare x y = (if length x \<noteq> length y then 0 else if x = y then 1 else 0)"

record Verifier =
  credentialTTL :: Duration
  maxNonceAge :: Duration
  clockSkewTolerance :: Duration

record Credential =
  Timestamp :: Time
  Nonce :: "byte list"
  UsernameHash :: "byte list"
  Signature :: "byte list"
  NonceHex :: string
  RawMsg :: "byte list"

record VerifyResult =
  Allowed :: bool
  Reason :: string
  res_Username :: string
  res_DID :: string
  res_Role :: string

definition timestampSize :: nat where
  "timestampSize = 4"

definition nonceSize :: nat where
  "nonceSize = 8"

definition usernameHashSize :: nat where
  "usernameHashSize = 8"

definition signatureSize :: nat where
  "signatureSize = 64"

definition credentialSize :: nat where
  "credentialSize = timestampSize + nonceSize + usernameHashSize + signatureSize"

definition NewVerifier :: "Duration \<Rightarrow> Duration \<Rightarrow> Verifier" where
  "NewVerifier ttl nonceAge =
     \<lparr>credentialTTL = ttl, maxNonceAge = nonceAge, clockSkewTolerance = 5 * Minute\<rparr>"

definition NewVerifierWithSkew :: "Duration \<Rightarrow> Duration \<Rightarrow> Duration \<Rightarrow> Verifier" where
  "NewVerifierWithSkew ttl nonceAge skew =
     \<lparr>credentialTTL = ttl, maxNonceAge = nonceAge, clockSkewTolerance = skew\<rparr>"

definition ParseCredential :: "libs \<Rightarrow> string \<Rightarrow> Credential outcome" where
  "ParseCredential L token =
     (case b64_DecodeString L token of
        Panic p \<Rightarrow> Panic p
      | Err e \<Rightarrow> Err (''invalid credential encoding: '' @ e)
      | Ok raw \<Rightarrow>
          if length raw \<noteq> credentialSize
          then Err (''invalid credential length: expected '' @ show_int (int credentialSize)
                    @ '' bytes, got '' @ show_int (int (length raw)))
          else (case BigEndian_Uint32 (take timestampSize raw) of
                  Panic p \<Rightarrow> Panic p
                | Err e \<Rightarrow> Err e
                | Ok tsUint32 \<Rightarrow>
                    (let ts = time_Unix (uint tsUint32) 0;
                         nonce = take nonceSize (drop timestampSize raw);
                         usernameHash = take usernameHashSize (drop (timestampSize + nonceSize) raw);
                         sig = drop (timestampSize + nonceSize + usernameHashSize) raw
                     in Ok \<lparr>Timestamp = ts, Nonce = nonce, UsernameHash = usernameHash,
                             Signature = sig, NonceHex = hex_EncodeToString nonce,
                             RawMsg = take (timestampSize + nonceSize + usernameHashSize) raw\<rparr>)))"

text \<open>
  \<open>CreateCredentialAtTime\<close>; \<open>rnd\<close> is what \<open>rand.Read\<close> does with the 8-byte nonce slice:
  the bytes it fills it with, or its error.
\<close>

definition CreateCredentialAtTime ::
  "libs \<Rightarrow> byte list outcome \<Rightarrow> string \<Rightarrow> byte list \<Rightarrow> Time \<Rightarrow> string outcome" where
  "CreateCredentialAtTime L rnd username privateKey timestamp =
     (if username = [] then Err ''username cannot be empty''
      else if length privateKey \<noteq> PrivateKeySize then Err ''invalid private key size''
      else (let raw0 = replicate credentialSize (0 :: byte);
                ts = (word_of_int (Time_Unix timestamp) :: 32 word);
                raw1 = copy_into raw0 0 timestampSize (BigEndian_PutUint32 ts)
            in case rnd of
                 Panic p \<Rightarrow> Panic p
               | Err e \<Rightarrow> Err (''failed to generate nonce: '' @ e)
               | Ok bytes \<Rightarrow>
                   (let raw2 = copy_into raw1 timestampSize (timestampSize + nonceSize) bytes;
                        usernameHash = sha3_Sum256 L (bytes_of_string username);
                        raw3 = copy_into raw2 (timestampSize + nonceSize)
                                 (timestampSize + nonceSize + usernameHashSize)
                                 (take usernameHashSize usernameHash);
                        message = take (timestampSize + nonceSize + usernameHashSize) raw3
                    in case ed25519_Sign L privateKey message of
                         Panic p \<Rightarrow> Panic p
                       | Err e \<Rightarrow> Err e
                       | Ok signature \<Rightarrow>
                           (let raw4 = copy_into raw3 (timestampSize + nonceSize + usernameHashSize)
                                         credentialSize signature
                            in Ok (b64_EncodeToString L raw4)))))"

text \<open>\<open>CreateCredential\<close> has the same body with \<open>time.Now()\<close> for the timestamp.\<close>

definition CreateCredential ::
  "libs \<Rightarrow> Time \<Rightarrow> byte list outcome \<Rightarrow> string \<Rightarrow> byte list \<Rightarrow> string outcome" where
  "CreateCredential L now rnd username privateKey =
     CreateCredentialAtTime L rnd username privateKey now"

definition deny :: "string \<Rightarrow> string \<Rightarrow> VerifyResult" where
  "deny reason detail =
     \<lparr>Allowed = False, Reason = reason @ '': '' @ detail,
      res_Username = [], res_DID = [], res_Role = []\<rparr>"

text \<open>Step 4 of \<open>Verify\<close>: the public key from the DID, or else the stored one.\<close>

definition resolve_public_key :: "libs \<Rightarrow> User \<Rightarrow> byte list outcome" where
  "resolve_public_key L user =
     (if HasPrefix (DID user) ''did:key:''
      then (case DecodeDIDKey (b58_Decode L) (DID user) of
              Ok k \<Rightarrow> Ok k
            | Err e \<Rightarrow> Ok (PublicKey user)
            | Panic p \<Rightarrow> Panic p)
      else Ok (PublicKey user))"

text \<open>
  Steps 6 to 9 of \<open>Verify\<close>, after the signature has been accepted. \<open>now\<close> is the reading of
  \<open>time.Now()\<close>, \<open>dbnow\<close> the database's \<open>CURRENT_TIMESTAMP\<close>.
\<close>

definition verify_after_signature ::
  "libs \<Rightarrow> Verifier \<Rightarrow> faults \<Rightarrow> Time \<Rightarrow> string \<Rightarrow> Store \<Rightarrow> string \<Rightarrow> Credential \<Rightarrow> User
   \<Rightarrow> (VerifyResult \<times> string option) outcome \<times> Store" where
  "verify_after_signature L v flt now dbnow s username cred user =
     (let age = Time_Sub now (Timestamp cred)
      in if sint age < sint (- clockSkewTolerance v)
         then (Ok (deny ''credential_future'' (sprintf_future L age (clockSkewTolerance v)), None), s)
         else (let effectiveTTL = credentialTTL v + clockSkewTolerance v
               in if sint age > sint effectiveTTL
                  then (Ok (deny ''credential_expired''
                              (sprintf_expired L age (credentialTTL v) (clockSkewTolerance v)), None), s)
                  else (case CheckNonce flt s (NonceHex cred) of
                          Panic p \<Rightarrow> (Panic p, s)
                        | Err e \<Rightarrow> (Ok (deny ''internal_error'' ''nonce check failed'', Some e), s)
                        | Ok seen \<Rightarrow>
                            if seen
                            then (Ok (deny ''nonce_replay'' ''credential token has already been used'',
                                      None), s)
                            else (case IsRevoked flt s (DID user) of
                                    Panic p \<Rightarrow> (Panic p, s)
                                  | Err e \<Rightarrow>
                                      (Ok (deny ''internal_error'' ''revocation check failed'', Some e), s)
                                  | Ok revoked \<Rightarrow>
                                      if revoked
                                      then (Ok (deny ''user_revoked''
                                                  (''user '' @ [CHR 0x27] @ username @ [CHR 0x27]
                                                   @ '' has been revoked''), None), s)
                                      else (case RecordNonce flt dbnow s (NonceHex cred) of
                                              (_, s') \<Rightarrow>
                                                (Ok (\<lparr>Allowed = True, Reason = ''authenticated'',
                                                      res_Username = Username user, res_DID = DID user,
                                                      res_Role = Role user\<rparr>, None), s'))))))"

definition Verify ::
  "libs \<Rightarrow> Verifier \<Rightarrow> faults \<Rightarrow> Time \<Rightarrow> string \<Rightarrow> Store \<Rightarrow> string \<Rightarrow> string
   \<Rightarrow> (VerifyResult \<times> string option) outcome \<times> Store" where
  "Verify L v flt now dbnow s username credentialToken =
     (case ParseCredential L credentialToken of
        Panic p \<Rightarrow> (Panic p, s)
      | Err e \<Rightarrow> (Ok (deny ''invalid_credential'' e, None), s)
      | Ok cred \<Rightarrow>
          (case GetUserByUsername flt s username of
             Panic p \<Rightarrow> (Panic p, s)
           | Err e \<Rightarrow> (Ok (deny ''internal_error'' ''database lookup failed'', Some e), s)
           | Ok None \<Rightarrow>
               (Ok (deny ''user_not_found''
                      (''user '' @ [CHR 0x27] @ username @ [CHR 0x27] @ '' not found''), None), s)
           | Ok (Some user) \<Rightarrow>
               (let expectedHash = sha3_Sum256 L (bytes_of_string username)
                in if ConstantTimeCompare (UsernameHash cred) (take usernameHashSize expectedHash) \<noteq> 1
                   then (Ok (deny ''username_mismatch''
                               ''credential was not issued for this username'', None), s)
                   else (case resolve_public_key L user of
                           Panic p \<Rightarrow> (Panic p, s)
                         | Err e \<Rightarrow> (Err e, s)
                         | Ok pubKey \<Rightarrow>
                             (case ed25519_Verify L pubKey (RawMsg cred) (Signature cred) of
                                Panic p \<Rightarrow> (Panic p, s)
                              | Err e \<Rightarrow> (Err e, s)
                              | Ok valid \<Rightarrow>
                                  if \<not> valid
                                  then (Ok (deny ''invalid_signature''
                                              ''Ed25519 signature verification failed'', None), s)
                                  else verify_after_signature L v flt now dbnow s username cred user)))))"

section \<open>internal/radius: the request handler\<close>

text \<open>
  The fields of the Access-Request that \<open>HandleAuth\<close> reads, the response it writes and the
  accounting event it records. The policy engine (\<open>policy.Engine.Evaluate\<close>, an embedded OPA)
  is the parameter \<open>evaluate\<close>. A RADIUS attribute holds at most 253 octets, so
  \<open>ReplyMessage_SetString\<close> fails on a longer string and leaves the packet without the
  attribute; the handler ignores that error.
\<close>

record Request =
  req_UserName :: string
  req_UserPassword :: string
  req_NASIPAddress :: string
  req_NASIdentifier :: string
  req_RemoteAddr :: string

datatype Code = CodeAccessAccept | CodeAccessReject

record Response =
  resp_Code :: Code
  ReplyMessage :: "string option"

record AuthzInput =
  in_User :: string
  in_DID :: string
  in_Role :: string
  in_Authenticated :: bool
  in_NASAddress :: string
  in_Resource :: string
  in_Timestamp :: Time

record AuthzResult =
  Allow :: bool
  DenyReasons :: "string list"

record AccountingEvent =
  ev_Timestamp :: Time
  ev_EventType :: string
  ev_UserDID :: string
  ev_Username :: string
  ev_ClientIP :: string
  ev_NASIdentifier :: string
  ev_Decision :: string
  ev_Reason :: string
  ev_LatencyUS :: int

text \<open>The readings of the clock during one request, in the order they are taken.\<close>

record clock =
  t_start :: Time
  t_verify :: Time
  t_policy :: Time
  t_event :: Time

definition ReplyMessage_SetString :: "Response \<Rightarrow> string \<Rightarrow> Response" where
  "ReplyMessage_SetString resp v =
     (if length v > 253 then resp else resp\<lparr>ReplyMessage := Some v\<rparr>)"

definition sendReject :: "string \<Rightarrow> Response" where
  "sendReject reason =
     ReplyMessage_SetString \<lparr>resp_Code = CodeAccessReject, ReplyMessage = None\<rparr> reason"

text \<open>\<open>Duration.Microseconds\<close> of \<open>time.Since(start)\<close>: the quotient truncates towards zero.\<close>

definition Microseconds :: "Duration \<Rightarrow> int" where
  "Microseconds d = sgn (sint d) * (\<bar>sint d\<bar> div 1000)"

definition recordEvent ::
  "clock \<Rightarrow> string \<Rightarrow> string \<Rightarrow> string \<Rightarrow> string \<Rightarrow> string \<Rightarrow> string \<Rightarrow> string \<Rightarrow> AccountingEvent" where
  "recordEvent ck eventType userDID username clientIP nasID decision reason =
     \<lparr>ev_Timestamp = t_event ck, ev_EventType = eventType, ev_UserDID = userDID,
      ev_Username = username, ev_ClientIP = clientIP, ev_NASIdentifier = nasID,
      ev_Decision = decision, ev_Reason = reason,
      ev_LatencyUS = Microseconds (Time_Sub (t_event ck) (t_start ck))\<rparr>"

text \<open>
  \<open>HandleAuth\<close> returns the response written and the event handed to the collector. The
  log line of the accept path slices \<open>result.DID[:20]\<close>, which panics on a shorter DID.
\<close>

definition HandleAuth ::
  "libs \<Rightarrow> Verifier \<Rightarrow> (AuthzInput \<Rightarrow> AuthzResult outcome) \<Rightarrow> faults \<Rightarrow> clock \<Rightarrow> string
   \<Rightarrow> Store \<Rightarrow> Request \<Rightarrow> (Response \<times> AccountingEvent) outcome \<times> Store" where
  "HandleAuth L v evaluate flt ck dbnow s r =
     (let username = req_UserName r;
          password = req_UserPassword r;
          nasIP = req_NASIPAddress r;
          nasID = req_NASIdentifier r;
          clientAddr = req_RemoteAddr r
      in if username = []
         then (Ok (sendReject ''missing username'',
                   recordEvent ck ''auth_failure'' [] username clientAddr nasID ''DENY''
                     ''missing_username''), s)
         else if password = []
         then (Ok (sendReject ''missing credential token'',
                   recordEvent ck ''auth_failure'' [] username clientAddr nasID ''DENY''
                     ''missing_credential''), s)
         else (case Verify L v flt (t_verify ck) dbnow s username password of
                 (Panic p, s') \<Rightarrow> (Panic p, s')
               | (Err e, s') \<Rightarrow> (Err e, s')
               | (Ok (result, Some err), s') \<Rightarrow>
                   (Ok (sendReject ''internal error'',
                        recordEvent ck ''auth_error'' [] username clientAddr nasID ''DENY''
                          ''internal_error''), s')
               | (Ok (result, None), s') \<Rightarrow>
                   if \<not> Allowed result
                   then (Ok (sendReject (Reason result),
                             recordEvent ck ''auth_failure'' (res_DID result) username clientAddr nasID
                               ''DENY'' (Reason result)), s')
                   else (let policyInput =
                               \<lparr>in_User = res_Username result, in_DID = res_DID result,
                                in_Role = res_Role result, in_Authenticated = True,
                                in_NASAddress = nasIP, in_Resource = ''network_access'',
                                in_Timestamp = t_policy ck\<rparr>
                         in case evaluate policyInput of
                              Panic p \<Rightarrow> (Panic p, s')
                            | Err e \<Rightarrow>
                                (Ok (sendReject ''policy evaluation error'',
                                     recordEvent ck ''auth_error'' (res_DID result) username clientAddr
                                       nasID ''DENY'' ''policy_error''), s')
                            | Ok policyResult \<Rightarrow>
                                if \<not> Allow policyResult
                                then (let reason = (case DenyReasons policyResult of
                                                      [] \<Rightarrow> ''policy_denied''
                                                    | first # _ \<Rightarrow> first)
                                      in (Ok (sendReject reason,
                                              recordEvent ck ''auth_failure'' (res_DID result) username
                                                clientAddr nasID ''DENY'' reason), s'))
                                else if length (res_DID result) < 20
                                then (Panic ''slice bounds out of range'', s')
                                else (Ok (ReplyMessage_SetString
                                            \<lparr>resp_Code = CodeAccessAccept, ReplyMessage = None\<rparr>
                                            (''Welcome, '' @ username),
                                          recordEvent ck ''auth_success'' (res_DID result) username
                                            clientAddr nasID ''ALLOW'' ''authenticated''), s'))))"

section \<open>Instances of the library parameters\<close>

text \<open>
  Stand-ins for SHA3-256 and Ed25519 with the shapes of the real ones (a 32-byte digest, a
  64-byte private key whose second half is the public key, a 64-byte signature), and the
  executable codecs above. They serve to run the model on concrete requests.
\<close>

definition demo_hash :: "byte list \<Rightarrow> byte list" where
  "demo_hash bs = take 32 (bs @ replicate 32 0)"

definition demo_sig :: "byte list \<Rightarrow> byte list \<Rightarrow> byte list" where
  "demo_sig privateKey message = take 64 (drop 32 privateKey @ message @ replicate 64 0)"

definition demo_check :: "byte list \<Rightarrow> byte list \<Rightarrow> byte list \<Rightarrow> bool" where
  "demo_check publicKey message sig = (sig = take 64 (publicKey @ message @ replicate 64 0))"

definition demo_libs :: libs where
  "demo_libs =
     \<lparr>sha3_Sum256 = demo_hash, ed25519_check = demo_check, ed25519_sig = demo_sig,
      b64_DecodeString = RawURLEncoding_DecodeString,
      b64_EncodeToString = RawURLEncoding_EncodeToString,
      b58_Decode = base58_Decode,
      sprintf_future = (\<lambda>age tol. ''credential timestamp is in the future''),
      sprintf_expired = (\<lambda>age ttl tol. ''credential expired'')\<rparr>"

definition alice_pub :: "byte list" where
  "alice_pub = [60, 196, 21, 33, 149, 13, 52, 116, 101, 192, 142, 13, 108, 126, 94, 207, 185, 116, 137, 45, 60, 106, 40, 74, 64, 98, 24, 68, 88, 141, 132, 20]"

definition alice_priv :: "byte list" where
  "alice_priv = [139, 112, 187, 45, 206, 162, 192, 185, 73, 191, 229, 88, 11, 35, 80, 242, 38, 22, 249, 117, 40, 21, 98, 179, 152, 239, 149, 108, 42, 99, 203, 123] @ alice_pub"

definition alice_did :: string where
  "alice_did = EncodeDIDKey base58_Encode alice_pub"

definition empty_store :: Store where
  "empty_store =
     \<lparr>users = [], revocations = [], nonce_cache = [], node_info = [], users_seq = 0,
      revocations_seq = 0\<rparr>"

definition alice_store :: Store where
  "alice_store = snd (AddUser no_faults ''2026-01-01 00:00:00'' empty_store ''alice'' alice_did alice_pub ''basic'')"

definition carol_store :: Store where
  "carol_store =
     snd (AddUser no_faults ''2026-02-05 10:00:00'' empty_store ''carol'' ''did:key:z6MkCarol''
            [107, 101, 121, 49] [])"

definition carol_revoked :: Store where
  "carol_revoked = snd (RevokeUser no_faults ''2026-02-05 10:32:00'' carol_store ''carol'' ''test'')"

section \<open>Verification: Merkle tree\<close>

lemma equal_bytes_iff: "equal_bytes a b = (a = b)"
  by (induction a b rule: equal_bytes.induct) auto












text \<open>
  Claim C10. With an empty proof, \<open>VerifyProof\<close> returns true exactly when the claimed root is
  SHA3-256(0x00 || leafData). A tree built from a single leaf has the leaf hash as its root,
  \<open>Proof 0\<close> is the empty sequence, and it verifies that leaf against the root.
\<close>

theorem merkle_empty_proof_single_leaf:
  "(VerifyProof H leafData [] rt \<longleftrightarrow> rt = H (0x00 # leafData)) \<and>
   NewTree H [leaf] = Ok \<lparr>Leaves = [leaf], Nodes = [H (0x00 # leaf)], root = H (0x00 # leaf), height = 0\<rparr> \<and>
   Proof H \<lparr>Leaves = [leaf], Nodes = [H (0x00 # leaf)], root = H (0x00 # leaf), height = 0\<rparr> 0 = Ok [] \<and>
   Root \<lparr>Leaves = [leaf], Nodes = [H (0x00 # leaf)], root = H (0x00 # leaf), height = 0\<rparr> = hashLeaf H leaf \<and>
   VerifyProof H leaf [] (H (0x00 # leaf))"
  by (auto simp: VerifyProof_def equal_bytes_iff hashLeaf_def LeafPrefix_def NewTree_def Proof_def Root_def
      build_levels.simps[of H "[H (0 # leaf)]"] proof_loop.simps[of H "[H (0 # leaf)]"])

section \<open>Verification: the library codecs\<close>

lemma qr_div: "r < k \<Longrightarrow> (q * k + r) div k = (q :: nat)"
  by simp

lemma qr_mod: "r < k \<Longrightarrow> (q * k + r) mod k = (r :: nat)"
  by simp

lemma sextets_recombine:
  "((n div 262144 * 64 + n div 4096 mod 64) * 64 + n div 64 mod 64) * 64 + n mod 64 = (n :: nat)"
proof -
  have a: "n div 4096 = n div 64 div 64" by (simp add: div_mult2_eq[symmetric])
  have b: "n div 262144 = n div 64 div 64 div 64" by (simp add: div_mult2_eq[symmetric])
  show ?thesis unfolding a b by (simp only: div_mult_mod_eq)
qed

lemma bytes3_split:
  fixes a b c :: nat
  assumes "a < 256" "b < 256" "c < 256"
  shows "((a * 256 + b) * 256 + c) div 65536 = a"
    and "((a * 256 + b) * 256 + c) div 256 mod 256 = b"
    and "((a * 256 + b) * 256 + c) mod 256 = c"
    and "((a * 256 + b) * 256 + c) div 262144 < 64"
proof -
  let ?n = "(a * 256 + b) * 256 + c"
  have d1: "?n div 256 = a * 256 + b" using assms(3) by (rule qr_div)
  show "?n mod 256 = c" using assms(3) by (rule qr_mod)
  show "?n div 256 mod 256 = b" unfolding d1 using assms(2) by (rule qr_mod)
  have "?n div 65536 = ?n div 256 div 256" by (simp add: div_mult2_eq[symmetric])
  also have "\<dots> = a" unfolding d1 using assms(2) by (rule qr_div)
  finally show "?n div 65536 = a" .
  have "?n < 64 * 262144" using assms by simp
  then show "?n div 262144 < 64" by (rule less_mult_imp_div_less)
qed

lemma bytes2_split:
  fixes a b :: nat
  assumes "a < 256" "b < 256"
  shows "((a * 256 + b) * 4) div 1024 = a"
    and "((a * 256 + b) * 4) div 4 mod 256 = b"
    and "((a * 256 + b) * 4) div 4096 < 64"
    and "(((a * 256 + b) * 4) div 4096 * 64 + ((a * 256 + b) * 4) div 64 mod 64) * 64
           + ((a * 256 + b) * 4) mod 64 = (a * 256 + b) * 4"
proof -
  let ?n = "(a * 256 + b) * 4"
  have d1: "?n div 4 = a * 256 + b" by simp
  show "?n div 4 mod 256 = b" unfolding d1 using assms(2) by (rule qr_mod)
  have "?n div 1024 = ?n div 4 div 256" by (simp add: div_mult2_eq[symmetric])
  also have "\<dots> = a" unfolding d1 using assms(2) by (rule qr_div)
  finally show "?n div 1024 = a" .
  have "?n < 64 * 4096" using assms by simp
  then show "?n div 4096 < 64" by (rule less_mult_imp_div_less)
  have a: "?n div 4096 = ?n div 64 div 64" by (simp add: div_mult2_eq[symmetric])
  show "(?n div 4096 * 64 + ?n div 64 mod 64) * 64 + ?n mod 64 = ?n"
    unfolding a by (simp only: div_mult_mod_eq)
qed

lemma bytes1_split:
  fixes a :: nat
  assumes "a < 256"
  shows "(a * 16) div 16 = a"
    and "(a * 16) div 64 < 64"
    and "(a * 16) div 64 * 64 + (a * 16) mod 64 = a * 16"
proof -
  show "(a * 16) div 16 = a" by simp
  have "a * 16 < 64 * 64" using assms by simp
  then show "(a * 16) div 64 < 64" by (rule less_mult_imp_div_less)
  show "(a * 16) div 64 * 64 + (a * 16) mod 64 = a * 16" by (simp only: div_mult_mod_eq)
qed


lemma index_of_nth: "distinct xs \<Longrightarrow> i < length xs \<Longrightarrow> index_of (xs ! i) xs = Some i"
proof (induction xs arbitrary: i)
  case Nil
  then show ?case by simp
next
  case (Cons x xs)
  show ?case
  proof (cases i)
    case 0
    then show ?thesis by simp
  next
    case (Suc j)
    with Cons.prems have "xs ! j \<noteq> x" "index_of (xs ! j) xs = Some j"
      using Cons.IH[of j] by auto
    with Suc show ?thesis by simp
  qed
qed

lemma distinct_b64url_alphabet: "distinct b64url_alphabet"
  by (simp add: b64url_alphabet_def)

lemma length_b64url_alphabet: "length b64url_alphabet = 64"
  by (simp add: b64url_alphabet_def)

lemma b64_sextets_alphabet:
  "\<forall>d \<in> set ds. d < 64 \<Longrightarrow> b64_sextets i (map (\<lambda>d. b64url_alphabet ! d) ds) = Inr ds"
  by (induction ds arbitrary: i)
     (simp_all add: index_of_nth distinct_b64url_alphabet length_b64url_alphabet)

lemma b64_sextets_of_bound:
  "\<forall>x \<in> set ns. x < 256 \<Longrightarrow> \<forall>d \<in> set (b64_sextets_of ns). d < 64"
proof (induction ns rule: b64_sextets_of.induct)
  case (1 a b c rest)
  then have abc: "a < 256" "b < 256" "c < 256" and r: "\<forall>x \<in> set rest. x < 256" by simp_all
  define n where "n = (a * 256 + b) * 256 + c"
  have s: "b64_sextets_of (a # b # c # rest)
         = [n div 262144, n div 4096 mod 64, n div 64 mod 64, n mod 64] @ b64_sextets_of rest"
    unfolding n_def by (simp only: b64_sextets_of.simps Let_def)
  have "n div 262144 < 64" unfolding n_def using abc by (rule bytes3_split(4))
  with 1(1)[OF refl r] show ?case unfolding s by simp
next
  case (2 a b)
  then have ab: "a < 256" "b < 256" by simp_all
  define n where "n = (a * 256 + b) * 4"
  have s: "b64_sextets_of [a, b] = [n div 4096, n div 64 mod 64, n mod 64]"
    unfolding n_def by (simp only: b64_sextets_of.simps Let_def)
  have "n div 4096 < 64" unfolding n_def using ab by (rule bytes2_split(3))
  then show ?case unfolding s by simp
next
  case (3 a)
  then have a: "a < 256" by simp
  define n where "n = a * 16"
  have s: "b64_sextets_of [a] = [n div 64, n mod 64]"
    unfolding n_def by (simp only: b64_sextets_of.simps Let_def)
  have "n div 64 < 64" unfolding n_def using a by (rule bytes1_split(2))
  then show ?case unfolding s by simp
qed simp

lemma b64_quanta_sextets_of:
  "\<forall>x \<in> set ns. x < 256 \<Longrightarrow> b64_quanta i (b64_sextets_of ns) = Inr ns"
proof (induction ns arbitrary: i rule: b64_sextets_of.induct)
  case (1 a b c rest)
  then have abc: "a < 256" "b < 256" "c < 256" and r: "\<forall>x \<in> set rest. x < 256" by simp_all
  define n where "n = (a * 256 + b) * 256 + c"
  have s: "b64_sextets_of (a # b # c # rest)
         = n div 262144 # n div 4096 mod 64 # n div 64 mod 64 # n mod 64 # b64_sextets_of rest"
    unfolding n_def by (simp only: b64_sextets_of.simps Let_def append_Cons append_Nil)
  have ih: "b64_quanta (i + 4) (b64_sextets_of rest) = Inr rest" using 1(1)[OF refl r] .
  have split: "n div 65536 = a" "n div 256 mod 256 = b" "n mod 256 = c"
    unfolding n_def using abc by (rule bytes3_split)+
  show ?case unfolding s
    by (simp only: b64_quanta.simps Let_def sextets_recombine ih split sum.case append_Cons append_Nil)
next
  case (2 a b)
  then have ab: "a < 256" "b < 256" by simp_all
  define n where "n = (a * 256 + b) * 4"
  have s: "b64_sextets_of [a, b] = [n div 4096, n div 64 mod 64, n mod 64]"
    unfolding n_def by (simp only: b64_sextets_of.simps Let_def)
  have split: "n div 1024 = a" "n div 4 mod 256 = b"
    "(n div 4096 * 64 + n div 64 mod 64) * 64 + n mod 64 = n"
    unfolding n_def using ab by (rule bytes2_split)+
  show ?case unfolding s by (simp only: b64_quanta.simps Let_def split)
next
  case (3 a)
  then have a: "a < 256" by simp
  define n where "n = a * 16"
  have s: "b64_sextets_of [a] = [n div 64, n mod 64]"
    unfolding n_def by (simp only: b64_sextets_of.simps Let_def)
  have split: "n div 16 = a" "n div 64 * 64 + n mod 64 = n"
    unfolding n_def using a by (rule bytes1_split)+
  show ?case unfolding s by (simp only: b64_quanta.simps Let_def split)
qed simp

lemma base64_roundtrip:
  "RawURLEncoding_DecodeString (RawURLEncoding_EncodeToString bs) = Ok bs"
proof -
  let ?ns = "map unat bs"
  have b: "\<forall>x \<in> set ?ns. x < 256"
  proof
    fix x assume "x \<in> set ?ns"
    then obtain w :: byte where "x = unat w" by auto
    then show "x < 256" using unsigned_less[of w] by simp
  qed
  have "map word_of_nat ?ns = bs" by (simp add: map_idI)
  with b64_sextets_alphabet[OF b64_sextets_of_bound[OF b], of 0] b64_quanta_sextets_of[OF b, of 0]
  show ?thesis
    by (simp add: RawURLEncoding_DecodeString_def RawURLEncoding_EncodeToString_def)
qed

lemma nat_of_digits_snoc:
  "nat_of_digits b acc (ds @ [d]) = nat_of_digits b acc ds * b + d"
  by (induction ds arbitrary: acc) simp_all

lemma nat_of_digits_zeros:
  "nat_of_digits b 0 (replicate z 0 @ ds) = nat_of_digits b 0 ds"
  by (induction z) simp_all

lemma digits_of_nat_step:
  "n \<noteq> 0 \<Longrightarrow> 2 \<le> b \<Longrightarrow> digits_of_nat b n acc = digits_of_nat b (n div b) (n mod b # acc)"
  by (simp add: digits_of_nat.simps[of b n])

lemma digits_of_nat_zero: "digits_of_nat b 0 acc = acc"
  by (simp add: digits_of_nat.simps[of b 0])

lemma digits_of_nat_acc:
  "2 \<le> b \<Longrightarrow> digits_of_nat b n acc = digits_of_nat b n [] @ acc"
proof (induction n arbitrary: acc rule: less_induct)
  case (less n)
  show ?case
  proof (cases "n = 0")
    case True
    then show ?thesis by (simp add: digits_of_nat_zero)
  next
    case False
    with less.prems have lt: "n div b < n" by simp
    have "digits_of_nat b n acc = digits_of_nat b (n div b) (n mod b # acc)"
      using False less.prems by (rule digits_of_nat_step)
    also have "\<dots> = digits_of_nat b (n div b) [] @ (n mod b # acc)"
      using less.IH[OF lt less.prems] .
    finally have a: "digits_of_nat b n acc = digits_of_nat b (n div b) [] @ (n mod b # acc)" .
    have "digits_of_nat b n [] = digits_of_nat b (n div b) [n mod b]"
      using False less.prems by (rule digits_of_nat_step)
    also have "\<dots> = digits_of_nat b (n div b) [] @ [n mod b]"
      using less.IH[OF lt less.prems] .
    finally show ?thesis using a by simp
  qed
qed

lemma digits_of_nat_unfold:
  "n \<noteq> 0 \<Longrightarrow> 2 \<le> b \<Longrightarrow> digits_of_nat b n [] = digits_of_nat b (n div b) [] @ [n mod b]"
  using digits_of_nat_step[of n b "[]"] digits_of_nat_acc[of b "n div b" "[n mod b]"] by simp

lemma nat_of_digits_of_nat:
  "2 \<le> b \<Longrightarrow> nat_of_digits b 0 (digits_of_nat b n []) = n"
proof (induction n rule: less_induct)
  case (less n)
  show ?case
  proof (cases "n = 0")
    case True
    then show ?thesis by (simp add: digits_of_nat_zero)
  next
    case False
    with less.prems have lt: "n div b < n" by simp
    show ?thesis
      using less.IH[OF lt less.prems] False less.prems
      by (simp add: digits_of_nat_unfold nat_of_digits_snoc)
  qed
qed

lemma digits_of_nat_bound:
  "2 \<le> b \<Longrightarrow> \<forall>d \<in> set (digits_of_nat b n []). d < b"
proof (induction n rule: less_induct)
  case (less n)
  show ?case
  proof (cases "n = 0")
    case True
    then show ?thesis by (simp add: digits_of_nat_zero)
  next
    case False
    with less.prems have lt: "n div b < n" by simp
    have u: "digits_of_nat b n [] = digits_of_nat b (n div b) [] @ [n mod b]"
      using False less.prems by (rule digits_of_nat_unfold)
    have "n mod b < b" using less.prems by simp
    with less.IH[OF lt less.prems] show ?thesis unfolding u by simp
  qed
qed

lemma digits_of_nat_hd:
  "2 \<le> b \<Longrightarrow> n \<noteq> 0 \<Longrightarrow> digits_of_nat b n [] \<noteq> [] \<and> hd (digits_of_nat b n []) \<noteq> 0"
proof (induction n rule: less_induct)
  case (less n)
  from less.prems have lt: "n div b < n" by simp
  show ?case
  proof (cases "n div b = 0")
    case True
    then have "n mod b = n" using less.prems
      by (metis div_mult_mod_eq mult_zero_left add_0)
    with True less.prems show ?thesis
      by (simp add: digits_of_nat_unfold digits_of_nat_zero)
  next
    case False
    from less.IH[OF lt less.prems(1) False] less.prems show ?thesis
      by (simp add: digits_of_nat_unfold)
  qed
qed

lemma nat_of_digits_pos:
  "ds \<noteq> [] \<Longrightarrow> hd ds \<noteq> 0 \<Longrightarrow> 0 < b \<Longrightarrow> 0 < nat_of_digits b 0 ds"
proof (induction ds rule: rev_induct)
  case Nil
  then show ?case by simp
next
  case (snoc d ds)
  show ?case
  proof (cases "ds = []")
    case True
    with snoc.prems show ?thesis by simp
  next
    case False
    with snoc have "0 < nat_of_digits b 0 ds" by simp
    with snoc.prems show ?thesis by (simp add: nat_of_digits_snoc)
  qed
qed

lemma digits_of_nat_of_digits:
  "2 \<le> b \<Longrightarrow> \<forall>d \<in> set ds. d < b \<Longrightarrow> ds = [] \<or> hd ds \<noteq> 0
   \<Longrightarrow> digits_of_nat b (nat_of_digits b 0 ds) [] = ds"
proof (induction ds rule: rev_induct)
  case Nil
  then show ?case by (simp add: digits_of_nat_zero)
next
  case (snoc d ds)
  from snoc.prems have d: "d < b" by simp
  let ?v = "nat_of_digits b 0 ds * b + d"
  show ?case
  proof (cases "ds = []")
    case True
    with snoc.prems have "d \<noteq> 0" by simp
    with True d snoc.prems(1) show ?thesis
      by (simp add: digits_of_nat_unfold digits_of_nat_zero)
  next
    case False
    with snoc.prems have h: "hd ds \<noteq> 0" by simp
    with False snoc.prems(1) have "0 < nat_of_digits b 0 ds" by (intro nat_of_digits_pos) auto
    then have nz: "?v \<noteq> 0" using snoc.prems(1) by simp
    have ih: "digits_of_nat b (nat_of_digits b 0 ds) [] = ds"
      using snoc.IH snoc.prems h by simp
    have "?v div b = nat_of_digits b 0 ds" "?v mod b = d" using d by simp_all
    with nz ih snoc.prems(1) show ?thesis
      by (simp add: nat_of_digits_snoc digits_of_nat_unfold)
  qed
qed


lemma distinct_b58_alphabet: "distinct b58_alphabet"
  by (simp add: b58_alphabet_def)

lemma length_b58_alphabet: "length b58_alphabet = 58"
  by (simp add: b58_alphabet_def)

lemma b58_alphabet_0: "b58_alphabet ! 0 = CHR ''1''"
  by (simp add: b58_alphabet_def)

lemma b58_digits_alphabet:
  "\<forall>d \<in> set ds. d < 58 \<Longrightarrow> b58_digits (map (\<lambda>d. b58_alphabet ! d) ds) = Inr ds"
  by (induction ds) (simp_all add: index_of_nth distinct_b58_alphabet length_b58_alphabet)

lemma takeWhile_eq_replicate:
  "takeWhile (\<lambda>x. x = a) xs = replicate (length (takeWhile (\<lambda>x. x = a) xs)) a"
  by (induction xs) simp_all

lemma takeWhile_replicate_append:
  "ys = [] \<or> hd ys \<noteq> a \<Longrightarrow> takeWhile (\<lambda>x. x = a) (replicate z a @ ys) = replicate z a"
  by (induction z) (auto simp: takeWhile_eq_Nil_iff)

lemma base58_roundtrip:
  assumes "bin \<noteq> []"
  shows "base58_Decode (base58_Encode bin) = Ok bin"
proof -
  define z where "z = length (takeWhile (\<lambda>b. b = 0) bin)"
  define rest where "rest = dropWhile (\<lambda>b. b = 0) bin"
  define N where "N = nat_of_digits 256 0 (map unat bin)"
  define E where "E = digits_of_nat 58 N []"
  have bin: "bin = replicate z 0 @ rest"
    unfolding z_def rest_def
    using takeWhile_eq_replicate[of 0 bin] takeWhile_dropWhile_id[of "\<lambda>b. b = 0" bin] by simp
  have rest_hd: "rest = [] \<or> hd rest \<noteq> 0"
    unfolding rest_def using hd_dropWhile[of "\<lambda>b. b = 0" bin] by auto
  have N_rest: "N = nat_of_digits 256 0 (map unat rest)"
    unfolding N_def by (subst bin) (simp add: nat_of_digits_zeros)
  have rb: "\<forall>x \<in> set (map unat rest). x < 256"
  proof
    fix x assume "x \<in> set (map unat rest)"
    then obtain w :: byte where "x = unat w" by auto
    then show "x < 256" using unsigned_less[of w] by simp
  qed
  have rh: "map unat rest = [] \<or> hd (map unat rest) \<noteq> 0"
    using rest_hd by (cases rest) (auto simp: unat_eq_0)
  have dig256: "digits_of_nat 256 N [] = map unat rest"
    unfolding N_rest using rb rh by (intro digits_of_nat_of_digits) simp_all
  have Eb: "\<forall>d \<in> set E. d < 58" unfolding E_def by (intro digits_of_nat_bound) simp
  have Eh: "E = [] \<or> hd E \<noteq> 0"
    unfolding E_def using digits_of_nat_hd[of 58 N] by (cases "N = 0") (simp_all add: digits_of_nat_zero)
  have EN: "nat_of_digits 58 0 E = N" unfolding E_def by (intro nat_of_digits_of_nat) simp
  let ?chars = "map (\<lambda>d. b58_alphabet ! d) E"
  have enc: "base58_Encode bin = replicate z (CHR ''1'') @ ?chars"
    by (simp add: base58_Encode_def z_def E_def N_def)
  have m: "map (\<lambda>d. b58_alphabet ! d) (replicate z 0 @ E) = replicate z (CHR ''1'') @ ?chars"
    by (simp add: b58_alphabet_0)
  have "\<forall>d \<in> set (replicate z 0 @ E). d < 58" using Eb by auto
  then have "b58_digits (map (\<lambda>d. b58_alphabet ! d) (replicate z 0 @ E)) = Inr (replicate z 0 @ E)"
    by (rule b58_digits_alphabet)
  then have digs: "b58_digits (replicate z (CHR ''1'') @ ?chars) = Inr (replicate z 0 @ E)"
    unfolding m .
  have ch: "?chars = [] \<or> hd ?chars \<noteq> CHR ''1''"
  proof (cases E)
    case Nil
    then show ?thesis by simp
  next
    case (Cons e es)
    with Eh Eb have e: "e \<noteq> 0" "e < 58" by simp_all
    have "b58_alphabet ! e \<noteq> b58_alphabet ! 0"
      using e distinct_b58_alphabet by (simp add: nth_eq_iff_index_eq length_b58_alphabet)
    with Cons show ?thesis by (simp add: b58_alphabet_0)
  qed
  have ones: "takeWhile (\<lambda>c. c = CHR ''1'') (replicate z (CHR ''1'') @ ?chars) = replicate z (CHR ''1'')"
    using ch by (rule takeWhile_replicate_append)
  have ne: "replicate z (CHR ''1'') @ ?chars \<noteq> []"
  proof (cases "rest = []")
    case True
    with bin assms show ?thesis by auto
  next
    case False
    with rest_hd have "0 < nat_of_digits 256 0 (map unat rest)"
      by (intro nat_of_digits_pos) (auto simp: hd_map unat_eq_0)
    with N_rest have "N \<noteq> 0" by simp
    with digits_of_nat_hd[of 58 N] have "E \<noteq> []" unfolding E_def by simp
    then show ?thesis by simp
  qed
  have "map word_of_nat (map unat rest) = rest" by (simp add: map_idI)
  with ne digs ones EN dig256 bin show ?thesis
    unfolding enc by (simp add: base58_Decode_def nat_of_digits_zeros)
qed

section \<open>Verification: DID codec\<close>

lemma HasPrefix_append: "HasPrefix (p @ s) p"
  by (simp add: HasPrefix_def)

lemma length_did_prefix: "length ''did:key:z'' = 9"
  by simp

text \<open>
  Claim C8. For every 32-byte key \<open>k\<close>, decoding the encoding of \<open>k\<close> succeeds and returns
  exactly \<open>k\<close> (base58 being a parameter, this needs base58 to decode what it encoded at
  the 34 prefixed bytes); and \<open>DecodeDIDKey\<close> rejects a string that does not begin with
  \<open>did:key:z\<close>, a string whose remainder base58 fails to decode, and a decoded payload whose
  length is not 34.
\<close>

theorem didkey_roundtrip_and_rejects:
  "(length k = 32 \<and> b58dec (b58enc ([0xed, 0x01] @ k)) = Ok ([0xed, 0x01] @ k)
      \<longrightarrow> DecodeDIDKey b58dec (EncodeDIDKey b58enc k) = Ok k) \<and>
   (\<not> HasPrefix s ''did:key:z''
      \<longrightarrow> DecodeDIDKey b58dec s
          = Err (''invalid DID:key format: must start with '' @ [CHR 0x27] @ ''did:key:z'' @ [CHR 0x27])) \<and>
   (HasPrefix s ''did:key:z'' \<and> b58dec (drop (length ''did:key:z'') s) = Err e
      \<longrightarrow> DecodeDIDKey b58dec s = Err (''failed to decode base58: '' @ e)) \<and>
   (HasPrefix s ''did:key:z'' \<and> b58dec (drop (length ''did:key:z'') s) = Ok decoded
      \<and> length decoded \<noteq> 34
      \<longrightarrow> (\<exists>msg. DecodeDIDKey b58dec s = Err msg))"
proof (intro conjI impI)
  assume a: "length k = 32 \<and> b58dec (b58enc ([0xed, 0x01] @ k)) = Ok ([0xed, 0x01] @ k)"
  have "HasPrefix (''did:key:z'' @ b58enc ([0xed, 0x01] @ k)) ''did:key:z''"
    by (rule HasPrefix_append)
  with a show "DecodeDIDKey b58dec (EncodeDIDKey b58enc k) = Ok k"
    by (simp add: DecodeDIDKey_def EncodeDIDKey_def ed25519MulticodecPrefix_def PublicKeySize_def)
next
  assume "\<not> HasPrefix s ''did:key:z''"
  then show "DecodeDIDKey b58dec s
      = Err (''invalid DID:key format: must start with '' @ [CHR 0x27] @ ''did:key:z'' @ [CHR 0x27])"
    by (simp add: DecodeDIDKey_def)
next
  assume "HasPrefix s ''did:key:z'' \<and> b58dec (drop (length ''did:key:z'') s) = Err e"
  then show "DecodeDIDKey b58dec s = Err (''failed to decode base58: '' @ e)"
    by (simp add: DecodeDIDKey_def)
next
  assume "HasPrefix s ''did:key:z'' \<and> b58dec (drop (length ''did:key:z'') s) = Ok decoded
      \<and> length decoded \<noteq> 34"
  then show "\<exists>msg. DecodeDIDKey b58dec s = Err msg"
    by (auto simp: DecodeDIDKey_def ed25519MulticodecPrefix_def PublicKeySize_def Let_def)
qed

lemma length_alice_pub: "length alice_pub = 32"
  by (simp add: alice_pub_def)

text \<open>
  The witness runs the codec on the executable base58 model, whose round trip is
  \<open>base58_roundtrip\<close>.
\<close>

theorem didkey_roundtrip_and_rejects_witness:
  "length alice_pub = 32 \<and>
   base58_Decode (base58_Encode ([0xed, 0x01] @ alice_pub)) = Ok ([0xed, 0x01] @ alice_pub) \<and>
   DecodeDIDKey base58_Decode (EncodeDIDKey base58_Encode alice_pub) = Ok alice_pub \<and>
   \<not> HasPrefix ''did:web:example'' ''did:key:z'' \<and>
   DecodeDIDKey base58_Decode ''did:web:example''
     = Err (''invalid DID:key format: must start with '' @ [CHR 0x27] @ ''did:key:z'' @ [CHR 0x27]) \<and>
   HasPrefix ''did:key:z0'' ''did:key:z'' \<and>
   base58_Decode (drop (length ''did:key:z'') ''did:key:z0'')
     = Err (''invalid base58 digit ('' @ [CHR 0x27] @ ''0'' @ [CHR 0x27] @ '')'') \<and>
   DecodeDIDKey base58_Decode ''did:key:z0''
     = Err (''failed to decode base58: invalid base58 digit ('' @ [CHR 0x27] @ ''0'' @ [CHR 0x27] @ '')'') \<and>
   HasPrefix ''did:key:zK36'' ''did:key:z'' \<and>
   base58_Decode (drop (length ''did:key:z'') ''did:key:zK36'') = Ok [0xed, 0x01] \<and>
   length [0xed, 0x01 :: byte] \<noteq> 34 \<and>
   (\<exists>msg. DecodeDIDKey base58_Decode ''did:key:zK36'' = Err msg)"
proof -
  have rt: "base58_Decode (base58_Encode ([0xed, 0x01] @ alice_pub)) = Ok ([0xed, 0x01] @ alice_pub)"
    by (rule base58_roundtrip) simp
  have p1: "\<not> HasPrefix ''did:web:example'' ''did:key:z''" by (simp add: HasPrefix_def)
  have p2: "HasPrefix ''did:key:z0'' ''did:key:z''" by (simp add: HasPrefix_def)
  have d2: "base58_Decode (drop (length ''did:key:z'') ''did:key:z0'')
      = Err (''invalid base58 digit ('' @ [CHR 0x27] @ ''0'' @ [CHR 0x27] @ '')'')"
    by (simp add: base58_Decode_def b58_alphabet_def)
  have p3: "HasPrefix ''did:key:zK36'' ''did:key:z''" by (simp add: HasPrefix_def)
  have d3: "base58_Decode (drop (length ''did:key:z'') ''did:key:zK36'') = Ok [0xed, 0x01]"
    by (simp add: base58_Decode_def b58_alphabet_def digits_of_nat.simps)
  have l3: "length [0xed, 0x01 :: byte] \<noteq> 34" by simp
  note t = didkey_roundtrip_and_rejects
  from t[of alice_pub base58_Decode base58_Encode] length_alice_pub rt
  have a: "DecodeDIDKey base58_Decode (EncodeDIDKey base58_Encode alice_pub) = Ok alice_pub" by blast
  from t[of _ _ _ "''did:web:example''"] p1
  have b: "DecodeDIDKey base58_Decode ''did:web:example''
     = Err (''invalid DID:key format: must start with '' @ [CHR 0x27] @ ''did:key:z'' @ [CHR 0x27])"
    by blast
  from t[of _ base58_Decode _ "''did:key:z0''" "''invalid base58 digit ('' @ [CHR 0x27] @ ''0'' @ [CHR 0x27] @ '')''"] p2 d2
  have c: "DecodeDIDKey base58_Decode ''did:key:z0''
     = Err (''failed to decode base58: '' @ ''invalid base58 digit ('' @ [CHR 0x27] @ ''0'' @ [CHR 0x27] @ '')'')"
    by blast
  from t[of _ base58_Decode _ "''did:key:zK36''" _ "[0xed, 0x01]"] p3 d3 l3
  have d: "\<exists>msg. DecodeDIDKey base58_Decode ''did:key:zK36'' = Err msg" by blast
  from length_alice_pub rt a p1 b p2 d2 c p3 d3 l3 d show ?thesis by simp
qed

section \<open>Verification: identity store\<close>

lemma carol_store_eval:
  "carol_store =
     \<lparr>users = [\<lparr>ID = 1, Username = ''carol'', DID = ''did:key:z6MkCarol'',
                 PublicKey = [107, 101, 121, 49], Role = ''basic'',
                 CreatedAt = ''2026-02-05 10:00:00'', RevokedAt = None\<rparr>],
      revocations = [], nonce_cache = [], node_info = [], users_seq = 1, revocations_seq = 0\<rparr>"
  by (simp add: carol_store_def AddUser_def no_faults_def empty_store_def)

lemma carol_revoked_eval:
  "carol_revoked =
     \<lparr>users = [\<lparr>ID = 1, Username = ''carol'', DID = ''did:key:z6MkCarol'',
                 PublicKey = [107, 101, 121, 49], Role = ''basic'',
                 CreatedAt = ''2026-02-05 10:00:00'', RevokedAt = Some ''2026-02-05 10:32:00''\<rparr>],
      revocations = [\<lparr>rev_id = 1, rev_did = ''did:key:z6MkCarol'', rev_reason = ''test'',
                       rev_revoked_at = ''2026-02-05 10:32:00''\<rparr>],
      nonce_cache = [], node_info = [], users_seq = 1, revocations_seq = 1\<rparr>"
  by (simp add: carol_revoked_def carol_store_eval RevokeUser_def no_faults_def)

text \<open>
  Claim C6, as amended. \<open>RevokeUser\<close> is atomic: either it returns an error and the store is
  unchanged, or it returns no error and the store has both changes, \<open>revoked_at\<close> of the named
  user set to now and one revocation row appended with that user's DID. It returns an error
  (and changes nothing) when no user has that username. When the user exists and no database
  statement fails it succeeds, whether or not the user was revoked before.
\<close>

theorem RevokeUser_atomic:
  "(case RevokeUser flt now s username reason of
      (Some e, s') \<Rightarrow> s' = s
    | (None, s') \<Rightarrow>
        (\<exists>row. find (\<lambda>u. Username u = username) (users s) = Some row \<and>
           s' = s\<lparr>users := map (\<lambda>u. if Username u = username then u\<lparr>RevokedAt := Some now\<rparr> else u)
                             (users s),
                   revocations := revocations s @
                     [\<lparr>rev_id = revocations_seq s + 1, rev_did = DID row, rev_reason = reason,
                       rev_revoked_at = now\<rparr>],
                   revocations_seq := revocations_seq s + 1\<rparr>)) \<and>
   (find (\<lambda>u. Username u = username) (users s) = None
      \<longrightarrow> fst (RevokeUser flt now s username reason) \<noteq> None
          \<and> snd (RevokeUser flt now s username reason) = s) \<and>
   (find (\<lambda>u. Username u = username) (users s) \<noteq> None \<and> flt TxBegin = None
      \<and> flt TxSelectDID = None \<and> flt TxUpdateUser = None \<and> flt TxInsertRevocation = None
      \<and> flt TxCommit = None
      \<longrightarrow> fst (RevokeUser flt now s username reason) = None)"
  by (auto simp: RevokeUser_def Let_def split: option.splits)

theorem RevokeUser_atomic_witness:
  "find (\<lambda>u. Username u = ''dave'') (users carol_store) = None \<and>
   fst (RevokeUser no_faults ''2026-02-05 10:32:00'' carol_store ''dave'' ''test'') \<noteq> None \<and>
   snd (RevokeUser no_faults ''2026-02-05 10:32:00'' carol_store ''dave'' ''test'') = carol_store \<and>
   find (\<lambda>u. Username u = ''carol'') (users carol_store) \<noteq> None \<and>
   no_faults TxBegin = None \<and> no_faults TxSelectDID = None \<and> no_faults TxUpdateUser = None \<and>
   no_faults TxInsertRevocation = None \<and> no_faults TxCommit = None \<and>
   fst (RevokeUser no_faults ''2026-02-05 10:32:00'' carol_store ''carol'' ''test'') = None \<and>
   snd (RevokeUser (no_faults(TxCommit := Some ''disk I/O error'')) ''2026-02-05 10:32:00''
          carol_store ''carol'' ''test'') = carol_store"
proof -
  have f1: "find (\<lambda>u. Username u = ''dave'') (users carol_store) = None"
    by (simp add: carol_store_eval)
  have f2: "find (\<lambda>u. Username u = ''carol'') (users carol_store) \<noteq> None"
    by (simp add: carol_store_eval)
  have nf: "no_faults TxBegin = None" "no_faults TxSelectDID = None" "no_faults TxUpdateUser = None"
    "no_faults TxInsertRevocation = None" "no_faults TxCommit = None"
    by (simp_all add: no_faults_def)
  note t = RevokeUser_atomic
  from t[where flt = no_faults and now = "''2026-02-05 10:32:00''" and s = carol_store
      and username = "''dave''" and reason = "''test''"] f1
  have a: "fst (RevokeUser no_faults ''2026-02-05 10:32:00'' carol_store ''dave'' ''test'') \<noteq> None"
    "snd (RevokeUser no_faults ''2026-02-05 10:32:00'' carol_store ''dave'' ''test'') = carol_store"
    by blast+
  from t[where flt = no_faults and now = "''2026-02-05 10:32:00''" and s = carol_store
      and username = "''carol''" and reason = "''test''"] f2 nf
  have b: "fst (RevokeUser no_faults ''2026-02-05 10:32:00'' carol_store ''carol'' ''test'') = None"
    by blast
  have "fst (RevokeUser (no_faults(TxCommit := Some ''disk I/O error'')) ''2026-02-05 10:32:00''
          carol_store ''carol'' ''test'') \<noteq> None"
    by (simp add: RevokeUser_def no_faults_def carol_store_eval)
  with t[where flt = "no_faults(TxCommit := Some ''disk I/O error'')"
      and now = "''2026-02-05 10:32:00''" and s = carol_store and username = "''carol''"
      and reason = "''test''"]
  have c: "snd (RevokeUser (no_faults(TxCommit := Some ''disk I/O error'')) ''2026-02-05 10:32:00''
          carol_store ''carol'' ''test'') = carol_store"
    by (cases "RevokeUser (no_faults(TxCommit := Some ''disk I/O error'')) ''2026-02-05 10:32:00''
          carol_store ''carol'' ''test''") (auto split: option.splits)
  from f1 a f2 nf b c show ?thesis by simp
qed

text \<open>
  The claim as stated fails where it says that revoking an already revoked user is an error:
  \<open>RevokeUser\<close> has no such check (the command-line caller makes it before calling), so a
  second revocation succeeds, overwrites \<open>revoked_at\<close> and appends a further row.
\<close>

theorem RevokeUser_already_revoked_counterexample:
  "map RevokedAt (users carol_revoked) = [Some ''2026-02-05 10:32:00''] \<and>
   fst (RevokeUser no_faults ''2026-02-06 09:00:00'' carol_revoked ''carol'' ''again'') = None \<and>
   map RevokedAt (users (snd (RevokeUser no_faults ''2026-02-06 09:00:00'' carol_revoked ''carol'' ''again'')))
     = [Some ''2026-02-06 09:00:00''] \<and>
   map rev_reason (revocations (snd (RevokeUser no_faults ''2026-02-06 09:00:00'' carol_revoked ''carol'' ''again'')))
     = [''test'', ''again'']"
  by (simp add: carol_revoked_eval RevokeUser_def no_faults_def)

end
